theory Spec2Isabelle
  imports Main "HOL-Library.Sublist"
begin

section \<open>Summary validation (scripts/validateSummaries.mjs)\<close>

text \<open>
  The script audits one or more directories (scopes). For every file that
  \<^verbatim>\<open>git ls-files\<close> lists under a scope it looks for the summary file
  \<^verbatim>\<open><scope>/summary/<relative path>.summary.txt\<close>, collects the files whose summary is
  missing and those whose summary is older than the file, shows both lists and asks what
  to do with them. Dismissed paths are kept per scope label in \<^verbatim>\<open>dismissed.json\<close>.

  The model passes the mutable module variable \<^verbatim>\<open>dismissed\<close>, the content of
  \<^verbatim>\<open>dismissed.json\<close> and the console explicitly as a state; what the script reads from
  its surroundings (the output of git, the file system's metadata, the answers to the
  prompts, whether the JSON file can be written) is a record of functions. An exception is
  a value \<open>Inl\<close>, carrying the state reached when it was thrown.
\<close>

subsection \<open>Data\<close>

type_synonym path = string

text \<open>The three choices of the prompt (lines 98-102).\<close>

datatype action = UpdateSummaries | DismissTheseAlerts | IgnoreForNow

text \<open>
  What can be thrown inside \<^verbatim>\<open>validateSummaries\<close>: \<^verbatim>\<open>fs.statSync\<close> on a path it cannot
  stat (lines 62-63) and \<^verbatim>\<open>fs.writeJSON\<close> on a file it cannot write (line 111).
\<close>

datatype error = MetadataError path | PersistenceError

text \<open>The four outcomes of the loop body (lines 56-70) for one file.\<close>

datatype classification = Current | Missing | Stale | Dismissed

text \<open>The lines the script prints, and the prompt it shows.\<close>

datatype event =
    ErrorFetching path
  | AllUpToDate string
  | MissingSummaries string "path list"
  | OutdatedSummaries string "path list"
  | Prompt string
  | PleaseUpdate
  | AlertsDismissed string
  | AlertsIgnored
  | AnErrorOccurred error

text \<open>
  The surroundings. \<open>git_ls_files dir\<close> is the standard output of
  \<^verbatim>\<open>git ls-files\<close> run in \<open>dir\<close>, or \<open>None\<close> when the command fails;
  \<open>statSync p\<close> is the modification time of \<open>p\<close> in milliseconds (a JavaScript
  \<^verbatim>\<open>Date\<close> holds an integral number of them), or \<open>None\<close> when
  \<^verbatim>\<open>fs.statSync\<close> throws; \<open>inquirer_prompt label\<close> is the answer given to the
  prompt for the scope \<open>label\<close>.
\<close>

record env =
  git_ls_files :: "path \<Rightarrow> string option"
  existsSync :: "path \<Rightarrow> bool"
  statSync :: "path \<Rightarrow> int option"
  inquirer_prompt :: "string \<Rightarrow> action"
  writeJSON_succeeds :: bool

text \<open>
  The JSON object of dismissals: scope label to array of relative paths. An array keeps
  its order and may hold a path twice (the file can be edited by hand).
\<close>

type_synonym dismissals = "string \<rightharpoonup> path list"

record state =
  dismissed :: dismissals
  dismissedFile :: dismissals
  console :: "event list"

subsection \<open>Strings and paths\<close>

definition summarySubDir :: path where
  "summarySubDir = ''summary''"

text \<open>\<^verbatim>\<open>String.prototype.includes\<close>: \<open>t\<close> occurs in \<open>s\<close> as a contiguous substring.\<close>

fun str_includes :: "string \<Rightarrow> string \<Rightarrow> bool" where
  "str_includes [] t = (t = [])"
| "str_includes (c # cs) t = (prefix t (c # cs) \<or> str_includes cs t)"

text \<open>\<^verbatim>\<open>String.prototype.startsWith\<close>.\<close>

definition startsWith :: "string \<Rightarrow> string \<Rightarrow> bool" where
  "startsWith s t = prefix t s"

text \<open>
  \<^verbatim>\<open>String.prototype.split\<close> with a one-character separator: the pieces between the
  separators, empty pieces included; the empty string gives one empty piece.
\<close>

fun split_str :: "char \<Rightarrow> string \<Rightarrow> string list" where
  "split_str sep [] = [[]]"
| "split_str sep (c # cs) =
     (if c = sep then [] # split_str sep cs
      else (case split_str sep cs of
              [] \<Rightarrow> [[c]]
            | piece # pieces \<Rightarrow> (c # piece) # pieces))"

text \<open>
  \<^verbatim>\<open>path.join\<close> and \<^verbatim>\<open>path.relative\<close> on the paths the script gives them: an absolute
  scope root and a normalised relative path as git prints it (no empty, \<^verbatim>\<open>.\<close> or
  \<^verbatim>\<open>..\<close> segment). There joining is concatenation with the separator, and the path
  relative to the root is what follows the root and the separator.
\<close>

definition path_join :: "path \<Rightarrow> path \<Rightarrow> path" where
  "path_join a b = a @ ''/'' @ b"

definition path_relative :: "path \<Rightarrow> path \<Rightarrow> path" where
  "path_relative from_dir to_path = drop (length from_dir + 1) to_path"

text \<open>
  \<^verbatim>\<open>[...new Set(xs)]\<close>: the elements of \<open>xs\<close> in the order of their first
  occurrence, each once.
\<close>

fun uniq_into :: "'a list \<Rightarrow> 'a list \<Rightarrow> 'a list" where
  "uniq_into acc [] = acc"
| "uniq_into acc (x # xs) = uniq_into (if x \<in> set acc then acc else acc @ [x]) xs"

definition spread_Set :: "'a list \<Rightarrow> 'a list" where
  "spread_Set xs = uniq_into [] xs"

subsection \<open>Listing the tracked files (lines 32-43)\<close>

text \<open>The filter of line 37.\<close>

definition keepFile :: "string \<Rightarrow> bool" where
  "keepFile file =
     (file \<noteq> [] \<and> \<not> str_includes file ''node_modules''
      \<and> \<not> startsWith file (summarySubDir @ ''/''))"

text \<open>
  The files and what is printed. A failure of git is caught (lines 39-42): it is printed
  and the result is the empty list.
\<close>

definition getGitTrackedFiles :: "env \<Rightarrow> path \<Rightarrow> path list \<times> event list" where
  "getGitTrackedFiles e targetDir =
     (case git_ls_files e targetDir of
        None \<Rightarrow> ([], [ErrorFetching targetDir])
      | Some stdout \<Rightarrow>
          (map (path_join targetDir) (filter keepFile (split_str (CHR 0x0A) stdout)), []))"

subsection \<open>One pass over a scope (lines 46-116)\<close>

definition relativePath :: "path \<Rightarrow> path \<Rightarrow> path" where
  "relativePath targetDir file = path_relative targetDir file"

definition summaryPath :: "path \<Rightarrow> path \<Rightarrow> path" where
  "summaryPath targetDir file =
     path_join (path_join targetDir summarySubDir)
       (relativePath targetDir file @ ''.summary.txt'')"

text \<open>
  The body of the loop (lines 56-70) for one file, as the branch it takes; \<open>dis\<close> is
  \<^verbatim>\<open>dismissed[dirLabel]\<close>.
\<close>

definition classify :: "env \<Rightarrow> path \<Rightarrow> path list \<Rightarrow> path \<Rightarrow> error + classification" where
  "classify e targetDir dis file =
     (if \<not> existsSync e (summaryPath targetDir file) then Inr Missing
      else case statSync e file of
        None \<Rightarrow> Inl (MetadataError file)
      | Some fileMtime \<Rightarrow>
          (case statSync e (summaryPath targetDir file) of
             None \<Rightarrow> Inl (MetadataError (summaryPath targetDir file))
           | Some summaryMtime \<Rightarrow>
               if fileMtime > summaryMtime then
                 (if relativePath targetDir file \<notin> set dis then Inr Stale else Inr Dismissed)
               else Inr Current))"

text \<open>
  The loop of lines 55-71 with its two arrays \<^verbatim>\<open>missingSummaries\<close> and
  \<^verbatim>\<open>outdatedSummaries\<close>; an exception ends it.
\<close>

fun forEach_file ::
  "env \<Rightarrow> path \<Rightarrow> path list \<Rightarrow> path list \<Rightarrow> path list \<times> path list
    \<Rightarrow> error + (path list \<times> path list)" where
  "forEach_file e targetDir dis [] (missingSummaries, outdatedSummaries) =
     Inr (missingSummaries, outdatedSummaries)"
| "forEach_file e targetDir dis (file # files) (missingSummaries, outdatedSummaries) =
     (case classify e targetDir dis file of
        Inl err \<Rightarrow> Inl err
      | Inr Missing \<Rightarrow>
          forEach_file e targetDir dis files
            (missingSummaries @ [relativePath targetDir file], outdatedSummaries)
      | Inr Stale \<Rightarrow>
          forEach_file e targetDir dis files
            (missingSummaries, outdatedSummaries @ [relativePath targetDir file])
      | Inr Dismissed \<Rightarrow>
          forEach_file e targetDir dis files (missingSummaries, outdatedSummaries)
      | Inr Current \<Rightarrow>
          forEach_file e targetDir dis files (missingSummaries, outdatedSummaries))"

text \<open>\<^verbatim>\<open>dismissed[dirLabel] || []\<close> (line 53).\<close>

definition dismissedFor :: "dismissals \<Rightarrow> string \<Rightarrow> path list" where
  "dismissedFor d dirLabel = (case d dirLabel of None \<Rightarrow> [] | Some paths \<Rightarrow> paths)"

definition console_log :: "event list \<Rightarrow> state \<Rightarrow> state" where
  "console_log evs s = s\<lparr>console := console s @ evs\<rparr>"

text \<open>Lines 47-53: list the files and make sure the scope has an array of dismissals.\<close>

definition prepare :: "env \<Rightarrow> path \<Rightarrow> string \<Rightarrow> state \<Rightarrow> path list \<times> state" where
  "prepare e targetDir dirLabel s =
     (let (allFiles, evs) = getGitTrackedFiles e targetDir
      in (allFiles,
          (console_log evs s)\<lparr>dismissed := (dismissed s)(dirLabel \<mapsto> dismissedFor (dismissed s) dirLabel)\<rparr>))"

text \<open>
  Lines 47-71: the classification pass with the two lists it produces and the state it
  leaves.
\<close>

definition classificationPass ::
  "env \<Rightarrow> path \<Rightarrow> string \<Rightarrow> state \<Rightarrow> (error \<times> state) + ((path list \<times> path list) \<times> state)" where
  "classificationPass e targetDir dirLabel s =
     (let (allFiles, s1) = prepare e targetDir dirLabel s
      in case forEach_file e targetDir (dismissedFor (dismissed s1) dirLabel) allFiles ([], []) of
           Inl err \<Rightarrow> Inl (err, s1)
         | Inr found \<Rightarrow> Inr (found, s1))"

text \<open>Lines 78-90: the two lists, each printed when it is not empty.\<close>

definition report :: "string \<Rightarrow> path list \<Rightarrow> path list \<Rightarrow> event list" where
  "report dirLabel missingSummaries outdatedSummaries =
     (if missingSummaries \<noteq> [] then [MissingSummaries dirLabel missingSummaries] else [])
     @ (if outdatedSummaries \<noteq> [] then [OutdatedSummaries dirLabel outdatedSummaries] else [])"

text \<open>Lines 109-110: the scope's array after a dismissal.\<close>

definition recordDismissals :: "string \<Rightarrow> path list \<Rightarrow> dismissals \<Rightarrow> dismissals" where
  "recordDismissals dirLabel toDismiss d =
     d(dirLabel \<mapsto> spread_Set (dismissedFor d dirLabel @ toDismiss))"

text \<open>Lines 106-115: what the chosen action does.\<close>

definition applyAction ::
  "env \<Rightarrow> string \<Rightarrow> path list \<Rightarrow> path list \<Rightarrow> action \<Rightarrow> state \<Rightarrow> (error \<times> state) + state" where
  "applyAction e dirLabel missingSummaries outdatedSummaries act s =
     (case act of
        UpdateSummaries \<Rightarrow> Inr (console_log [PleaseUpdate] s)
      | DismissTheseAlerts \<Rightarrow>
          (let toDismiss = missingSummaries @ outdatedSummaries;
               s' = s\<lparr>dismissed := recordDismissals dirLabel toDismiss (dismissed s)\<rparr>
           in if writeJSON_succeeds e
              then Inr (console_log [AlertsDismissed dirLabel] (s'\<lparr>dismissedFile := dismissed s'\<rparr>))
              else Inl (PersistenceError, s'))
      | IgnoreForNow \<Rightarrow> Inr (console_log [AlertsIgnored] s))"

definition validateSummaries :: "env \<Rightarrow> path \<Rightarrow> string \<Rightarrow> state \<Rightarrow> (error \<times> state) + state" where
  "validateSummaries e targetDir dirLabel s =
     (case classificationPass e targetDir dirLabel s of
        Inl failure \<Rightarrow> Inl failure
      | Inr ((missingSummaries, outdatedSummaries), s1) \<Rightarrow>
          if missingSummaries = [] \<and> outdatedSummaries = []
          then Inr (console_log [AllUpToDate dirLabel] s1)
          else applyAction e dirLabel missingSummaries outdatedSummaries
                 (inquirer_prompt e dirLabel)
                 (console_log (report dirLabel missingSummaries outdatedSummaries @ [Prompt dirLabel]) s1))"

subsection \<open>The entry point (lines 119-138)\<close>

text \<open>The loop over the selected directories (lines 132-134); an exception ends it.\<close>

fun forOf_directories :: "env \<Rightarrow> (path \<times> string) list \<Rightarrow> state \<Rightarrow> (error \<times> state) + state" where
  "forOf_directories e [] s = Inr s"
| "forOf_directories e ((dirPath, label) # directories) s =
     (case validateSummaries e dirPath label s of
        Inl failure \<Rightarrow> Inl failure
      | Inr s' \<Rightarrow> forOf_directories e directories s')"

text \<open>
  The whole run with its exit status: an exception is printed and the process exits with
  status 1 (lines 135-138).
\<close>

definition entryPoint :: "env \<Rightarrow> (path \<times> string) list \<Rightarrow> state \<Rightarrow> nat \<times> state" where
  "entryPoint e directories s =
     (case forOf_directories e directories s of
        Inl (err, s') \<Rightarrow> (1, console_log [AnErrorOccurred err] s')
      | Inr s' \<Rightarrow> (0, s'))"

text \<open>
  A later run of the script starts from what \<^verbatim>\<open>dismissed.json\<close> holds (lines 24-25).
\<close>

definition reload :: "state \<Rightarrow> state" where
  "reload s = \<lparr>dismissed = dismissedFile s, dismissedFile = dismissedFile s, console = []\<rparr>"

subsection \<open>Vocabulary of the properties\<close>

text \<open>The tracked files of a scope: what \<^verbatim>\<open>getGitTrackedFiles\<close> returns.\<close>

definition trackedFiles :: "env \<Rightarrow> path \<Rightarrow> path list" where
  "trackedFiles e targetDir = fst (getGitTrackedFiles e targetDir)"

text \<open>
  No \<^verbatim>\<open>fs.statSync\<close> of the loop throws: every tracked file whose summary exists
  can be statted, and so can its summary.
\<close>

definition statsSucceed :: "env \<Rightarrow> path \<Rightarrow> bool" where
  "statsSucceed e targetDir =
     (\<forall>file \<in> set (trackedFiles e targetDir).
        existsSync e (summaryPath targetDir file) \<longrightarrow>
          statSync e file \<noteq> None \<and> statSync e (summaryPath targetDir file) \<noteq> None)"

text \<open>The state a pass leaves, whether it returned or threw.\<close>

definition outcome_state :: "(error \<times> state) + state \<Rightarrow> state" where
  "outcome_state r = (case r of Inl (err, s) \<Rightarrow> s | Inr s \<Rightarrow> s)"

subsection \<open>A small repository\<close>

text \<open>
  The scope \<^verbatim>\<open>/r/backend\<close> tracks four files: \<^verbatim>\<open>a.txt\<close> has no summary,
  \<^verbatim>\<open>b.txt\<close> and \<^verbatim>\<open>d.txt\<close> were modified at 10 and summarised at 5, \<^verbatim>\<open>c.txt\<close>
  was modified and summarised at 7. The scope \<^verbatim>\<open>/r/frontend\<close> tracks \<^verbatim>\<open>x.js\<close>, which
  has no summary. The user dismisses whatever is shown.
\<close>

definition backend :: path where
  "backend = ''/r/backend''"

definition frontend :: path where
  "frontend = ''/r/frontend''"

definition demo_env :: env where
  "demo_env =
     \<lparr>git_ls_files = map_of
        [(''/r/backend'', ''a.txt'' @ [CHR 0x0A] @ ''b.txt'' @ [CHR 0x0A] @ ''c.txt''
            @ [CHR 0x0A] @ ''d.txt'' @ [CHR 0x0A]),
         (''/r/frontend'', ''x.js'' @ [CHR 0x0A])],
      existsSync = (\<lambda>p. p \<in> set
        [''/r/backend/summary/b.txt.summary.txt'',
         ''/r/backend/summary/c.txt.summary.txt'',
         ''/r/backend/summary/d.txt.summary.txt'']),
      statSync = map_of
        [(''/r/backend/a.txt'', 3),
         (''/r/backend/b.txt'', 10), (''/r/backend/summary/b.txt.summary.txt'', 5),
         (''/r/backend/c.txt'', 7), (''/r/backend/summary/c.txt.summary.txt'', 7),
         (''/r/backend/d.txt'', 10), (''/r/backend/summary/d.txt.summary.txt'', 5),
         (''/r/frontend/x.js'', 4)],
      inquirer_prompt = (\<lambda>label. DismissTheseAlerts),
      writeJSON_succeeds = True\<rparr>"

text \<open>The paths \<^verbatim>\<open>d.txt\<close> and \<^verbatim>\<open>a.txt\<close> of the backend were dismissed earlier.\<close>

definition demo_state :: state where
  "demo_state =
     \<lparr>dismissed = [''Backend'' \<mapsto> [''d.txt'', ''a.txt'']],
      dismissedFile = [''Backend'' \<mapsto> [''d.txt'', ''a.txt'']],
      console = []\<rparr>"

text \<open>The same repository when git cannot run.\<close>

definition env_no_git :: env where
  "env_no_git = demo_env\<lparr>git_ls_files := (\<lambda>dir. None)\<rparr>"

text \<open>
  The same repository after \<^verbatim>\<open>b.txt\<close> was deleted from the working tree: git still
  lists it, and it cannot be statted.
\<close>

definition env_deleted :: env where
  "env_deleted = demo_env\<lparr>statSync := (statSync demo_env)(''/r/backend/b.txt'' := None)\<rparr>"

text \<open>The same repository when \<^verbatim>\<open>dismissed.json\<close> cannot be written.\<close>

definition env_read_only :: env where
  "env_read_only = demo_env\<lparr>writeJSON_succeeds := False\<rparr>"

text \<open>The same repository when the user ignores whatever is shown.\<close>

definition env_ignore :: env where
  "env_ignore = demo_env\<lparr>inquirer_prompt := (\<lambda>label. IgnoreForNow)\<rparr>"

text \<open>The same dismissals in another order, one of them twice, and a used console.\<close>

definition demo_state2 :: state where
  "demo_state2 =
     \<lparr>dismissed = [''Backend'' \<mapsto> [''a.txt'', ''d.txt'', ''a.txt'']],
      dismissedFile = Map.empty,
      console = [PleaseUpdate]\<rparr>"

text \<open>
  A scope \<^verbatim>\<open>/r\<close> in which git lists a file with \<^verbatim>\<open>node_modules\<close> inside its name, a
  file of the top-level summary directory, a file of a summary directory further down,
  and an ordinary file, with an empty line between them.
\<close>

definition env_listing :: env where
  "env_listing = demo_env\<lparr>git_ls_files := (\<lambda>dir. Some
     (''my_node_modules_notes.txt'' @ [CHR 0x0A] @ ''summary/a.js.summary.txt'' @ [CHR 0x0A]
      @ ''docs/summary/notes.txt'' @ [CHR 0x0A] @ [CHR 0x0A] @ ''src/a.js'' @ [CHR 0x0A]))\<rparr>"

section \<open>Basic facts\<close>

lemma relativePath_join [simp]: "relativePath targetDir (path_join targetDir f) = f"
  by (simp add: relativePath_def path_relative_def path_join_def)

lemma includes_iff: "str_includes s t \<longleftrightarrow> (\<exists>ps ss. s = ps @ t @ ss)"
proof (induction s)
  case Nil
  then show ?case by auto
next
  case (Cons c cs)
  show ?case
  proof
    assume "str_includes (c # cs) t"
    then consider "prefix t (c # cs)" | "str_includes cs t" by auto
    then show "\<exists>ps ss. c # cs = ps @ t @ ss"
    proof cases
      case 1
      then obtain ss where "c # cs = t @ ss" by (auto simp: prefix_def)
      then have "c # cs = [] @ t @ ss" by simp
      then show ?thesis by blast
    next
      case 2
      with Cons.IH obtain ps ss where "cs = ps @ t @ ss" by blast
      then have "c # cs = (c # ps) @ t @ ss" by simp
      then show ?thesis by blast
    qed
  next
    assume "\<exists>ps ss. c # cs = ps @ t @ ss"
    then obtain ps ss where eq: "c # cs = ps @ t @ ss" by blast
    show "str_includes (c # cs) t"
    proof (cases ps)
      case Nil
      with eq have "prefix t (c # cs)" by (simp add: prefix_def)
      then show ?thesis by simp
    next
      case (Cons p ps')
      with eq have "cs = ps' @ t @ ss" by simp
      with Cons.IH have "str_includes cs t" by blast
      then show ?thesis by simp
    qed
  qed
qed

lemma set_uniq_into: "set (uniq_into acc xs) = set acc \<union> set xs"
  by (induction xs arbitrary: acc) auto

lemma distinct_uniq_into: "distinct acc \<Longrightarrow> distinct (uniq_into acc xs)"
  by (induction xs arbitrary: acc) auto

lemma uniq_into_append: "uniq_into acc (xs @ ys) = uniq_into (uniq_into acc xs) ys"
  by (induction xs arbitrary: acc) auto

lemma uniq_into_subset: "set xs \<subseteq> set acc \<Longrightarrow> uniq_into acc xs = acc"
  by (induction xs arbitrary: acc) auto

lemma uniq_into_distinct: "distinct (acc @ xs) \<Longrightarrow> uniq_into acc xs = acc @ xs"
  by (induction xs arbitrary: acc) auto

lemma set_spread_Set [simp]: "set (spread_Set xs) = set xs"
  by (simp add: spread_Set_def set_uniq_into)

lemma distinct_spread_Set [simp]: "distinct (spread_Set xs)"
  by (simp add: spread_Set_def distinct_uniq_into)

lemma spread_Set_absorb:
  "spread_Set (spread_Set (xs @ ys) @ ys) = spread_Set (xs @ ys)"
proof -
  let ?u = "spread_Set (xs @ ys)"
  have "spread_Set (?u @ ys) = uniq_into (uniq_into [] ?u) ys"
    by (simp add: spread_Set_def uniq_into_append)
  also have "uniq_into [] ?u = ?u"
    using uniq_into_distinct [of "[]" ?u] by simp
  also have "uniq_into ?u ys = ?u"
    by (rule uniq_into_subset) simp
  finally show ?thesis .
qed

lemma classify_ok_iff:
  "(\<exists>c. classify e t dis f = Inr c) \<longleftrightarrow>
   (existsSync e (summaryPath t f) \<longrightarrow>
      statSync e f \<noteq> None \<and> statSync e (summaryPath t f) \<noteq> None)"
  by (auto simp: classify_def split: option.splits)

lemma forEach_file_ok:
  "\<forall>f \<in> set files. \<exists>c. classify e t dis f = Inr c \<Longrightarrow>
   forEach_file e t dis files (m, out) =
     Inr (m @ map (relativePath t) (filter (\<lambda>f. classify e t dis f = Inr Missing) files),
          out @ map (relativePath t) (filter (\<lambda>f. classify e t dis f = Inr Stale) files))"
proof (induction files arbitrary: m out)
  case Nil
  then show ?case by simp
next
  case (Cons f files)
  from Cons.prems obtain c where c: "classify e t dis f = Inr c" by auto
  from Cons.prems have rest: "\<forall>f \<in> set files. \<exists>c. classify e t dis f = Inr c" by simp
  show ?case
    by (cases c) (simp_all add: c Cons.IH [OF rest])
qed

lemma forEach_file_Inr_ok:
  "forEach_file e t dis files (m, out) = Inr r \<Longrightarrow>
   \<forall>f \<in> set files. \<exists>c. classify e t dis f = Inr c"
proof (induction files arbitrary: m out)
  case Nil
  then show ?case by simp
next
  case (Cons f files)
  then show ?case
    by (auto split: sum.splits classification.splits)
qed

lemma trackedFiles_rejoin:
  "file \<in> set (trackedFiles e t) \<Longrightarrow> path_join t (relativePath t file) = file"
  by (auto simp: trackedFiles_def getGitTrackedFiles_def split: option.splits)

lemma prepare_eq:
  "prepare e t l s =
     (trackedFiles e t,
      (console_log (snd (getGitTrackedFiles e t)) s)
        \<lparr>dismissed := (dismissed s)(l \<mapsto> dismissedFor (dismissed s) l)\<rparr>)"
  by (simp add: prepare_def trackedFiles_def split: prod.splits)

lemma dismissedFor_upd_same [simp]: "dismissedFor (d(l \<mapsto> xs)) l = xs"
  by (simp add: dismissedFor_def)

lemma dismissedFor_ensure [simp]:
  "dismissedFor (d(l \<mapsto> dismissedFor d l)) l' = dismissedFor d l'"
  by (simp add: dismissedFor_def)

lemma classificationPass_ok:
  assumes "statsSucceed e t"
  shows "classificationPass e t l s =
     Inr ((map (relativePath t)
             (filter (\<lambda>f. classify e t (dismissedFor (dismissed s) l) f = Inr Missing)
                (trackedFiles e t)),
           map (relativePath t)
             (filter (\<lambda>f. classify e t (dismissedFor (dismissed s) l) f = Inr Stale)
                (trackedFiles e t))),
          snd (prepare e t l s))"
proof -
  have "\<forall>f \<in> set (trackedFiles e t). \<exists>c. classify e t (dismissedFor (dismissed s) l) f = Inr c"
    using assms by (simp add: statsSucceed_def classify_ok_iff)
  from forEach_file_ok [OF this, of "[]" "[]"] show ?thesis
    by (simp add: classificationPass_def prepare_eq console_log_def)
qed

lemma classificationPass_Inr_stats:
  assumes "classificationPass e t l s = Inr r"
  shows "statsSucceed e t"
proof -
  from assms obtain found where
    "forEach_file e t (dismissedFor (dismissed s) l) (trackedFiles e t) ([], []) = Inr found"
    by (auto simp: classificationPass_def prepare_eq split: sum.splits)
  from forEach_file_Inr_ok [OF this] show ?thesis
    unfolding statsSucceed_def classify_ok_iff .
qed

lemma classify_Missing_iff:
  "classify e t dis f = Inr Missing \<longleftrightarrow> \<not> existsSync e (summaryPath t f)"
  by (simp add: classify_def split: option.splits)

lemma classify_Stale_iff:
  "classify e t dis f = Inr Stale \<longleftrightarrow>
     existsSync e (summaryPath t f)
     \<and> (\<exists>a b. statSync e f = Some a \<and> statSync e (summaryPath t f) = Some b \<and> a > b)
     \<and> relativePath t f \<notin> set dis"
  by (cases "statSync e f"; cases "statSync e (summaryPath t f)") (simp_all add: classify_def)

lemma relativePath_inj:
  assumes "f \<in> set (trackedFiles e t)" and "g \<in> set (trackedFiles e t)"
    and "relativePath t f = relativePath t g"
  shows "f = g"
proof -
  have "f = path_join t (relativePath t f)"
    using trackedFiles_rejoin [OF assms(1)] by simp
  also have "\<dots> = path_join t (relativePath t g)"
    by (simp only: assms(3))
  also have "\<dots> = g"
    using trackedFiles_rejoin [OF assms(2)] .
  finally show ?thesis .
qed

lemma console_applyAction:
  "ev \<in> set (console s) \<Longrightarrow>
   ev \<in> set (console (outcome_state (applyAction e l m out act s)))"
  by (cases act) (simp_all add: applyAction_def outcome_state_def console_log_def Let_def)

lemma validateSummaries_reports:
  assumes "classificationPass e t l s = Inr ((m, out), s1)"
  shows "(m \<noteq> [] \<longrightarrow>
            MissingSummaries l m \<in> set (console (outcome_state (validateSummaries e t l s))))
       \<and> (out \<noteq> [] \<longrightarrow>
            OutdatedSummaries l out \<in> set (console (outcome_state (validateSummaries e t l s))))"
proof (cases "m = [] \<and> out = []")
  case True
  then show ?thesis by simp
next
  case False
  let ?s2 = "console_log (report l m out @ [Prompt l]) s1"
  have v: "validateSummaries e t l s = applyAction e l m out (inquirer_prompt e l) ?s2"
    using assms False by (cases "m = []") (simp_all add: validateSummaries_def)
  have "m \<noteq> [] \<Longrightarrow> MissingSummaries l m \<in> set (console ?s2)"
    by (simp add: console_log_def report_def)
  moreover have "out \<noteq> [] \<Longrightarrow> OutdatedSummaries l out \<in> set (console ?s2)"
    by (simp add: console_log_def report_def)
  ultimately show ?thesis
    unfolding v by (blast intro: console_applyAction)
qed



lemma classify_Current_eq:
  assumes "existsSync e (summaryPath t f)" and "statSync e f = Some a"
    and "statSync e (summaryPath t f) = Some a"
  shows "classify e t dis f = Inr Current"
  using assms by (simp add: classify_def)

lemma classify_Dismissed:
  assumes "existsSync e (summaryPath t f)" and "statSync e f = Some a"
    and "statSync e (summaryPath t f) = Some b" and "a > b" and "relativePath t f \<in> set dis"
  shows "classify e t dis f = Inr Dismissed"
  using assms by (simp add: classify_def)

lemma in_filtered_paths:
  assumes "r \<in> set (map (relativePath t) (filter P (trackedFiles e t)))"
    and "f \<in> set (trackedFiles e t)" and "relativePath t f = r"
  shows "P f"
proof -
  from assms(1) obtain g where g: "g \<in> set (trackedFiles e t)" "P g" "relativePath t g = r"
    by (fastforce simp: image_iff)
  with assms(2,3) have "f = g" by (simp add: relativePath_inj)
  with g show ?thesis by simp
qed

lemma classificationPass_state:
  "classificationPass e t l s = Inr (found, s1) \<Longrightarrow> s1 = snd (prepare e t l s)"
  by (simp add: classificationPass_def prepare_eq split: sum.splits)

lemma classificationPass_lists:
  assumes "classificationPass e t l s = Inr ((m, out), s1)"
  shows "m = map (relativePath t)
               (filter (\<lambda>f. classify e t (dismissedFor (dismissed s) l) f = Inr Missing)
                  (trackedFiles e t))"
    and "out = map (relativePath t)
               (filter (\<lambda>f. classify e t (dismissedFor (dismissed s) l) f = Inr Stale)
                  (trackedFiles e t))"
  using assms classificationPass_ok [OF classificationPass_Inr_stats [OF assms], of l s]
  by simp_all

lemma dismissed_prepare:
  "dismissed (snd (prepare e t l s)) = (dismissed s)(l \<mapsto> dismissedFor (dismissed s) l)"
  by (simp add: prepare_eq)

lemma dismissedFile_prepare: "dismissedFile (snd (prepare e t l s)) = dismissedFile s"
  by (simp add: prepare_eq console_log_def)

lemma dismissedFor_recordDismissals:
  "dismissedFor (recordDismissals l ps d) l' =
     (if l' = l then spread_Set (dismissedFor d l @ ps) else dismissedFor d l')"
  by (simp add: recordDismissals_def dismissedFor_def)

lemma validateSummaries_prompted:
  assumes "classificationPass e t l s = Inr ((m, out), s1)" and "m \<noteq> [] \<or> out \<noteq> []"
  shows "validateSummaries e t l s =
           applyAction e l m out (inquirer_prompt e l)
             (console_log (report l m out @ [Prompt l]) s1)"
  using assms by (cases "m = []") (simp_all add: validateSummaries_def)

lemma applyAction_Dismiss:
  assumes "writeJSON_succeeds e"
  shows "\<exists>s'. applyAction e l m out DismissTheseAlerts s = Inr s'
           \<and> dismissed s' = recordDismissals l (m @ out) (dismissed s)
           \<and> dismissedFile s' = dismissed s'"
  using assms by (simp add: applyAction_def console_log_def Let_def)

lemma applyAction_other:
  assumes "act \<noteq> DismissTheseAlerts"
  shows "\<exists>s'. applyAction e l m out act s = Inr s'
           \<and> dismissed s' = dismissed s \<and> dismissedFile s' = dismissedFile s"
  using assms by (cases act) (simp_all add: applyAction_def console_log_def)

lemma dismissed_console_log [simp]:
  "dismissed (console_log evs s) = dismissed s"
  "dismissedFile (console_log evs s) = dismissedFile s"
  by (simp_all add: console_log_def)

lemma dismissed_reload [simp]: "dismissed (reload s) = dismissedFile s"
  by (simp add: reload_def)

text \<open>After a dismissal nothing is stale any more.\<close>

lemma no_stale_after_dismissal:
  assumes pass: "classificationPass e t l s = Inr ((m, out), s1)"
    and dis': "dismissedFor (dismissed s') l = spread_Set (dismissedFor (dismissed s) l @ m @ out)"
  shows "\<exists>m2 s2. classificationPass e t l s' = Inr ((m2, []), s2)"
proof -
  let ?dis = "dismissedFor (dismissed s) l" and ?dis' = "dismissedFor (dismissed s') l"
  have stats: "statsSucceed e t" by (rule classificationPass_Inr_stats [OF pass])
  have none: "classify e t ?dis' f \<noteq> Inr Stale" if f: "f \<in> set (trackedFiles e t)" for f
  proof
    assume st: "classify e t ?dis' f = Inr Stale"
    then have "relativePath t f \<notin> set ?dis'" by (simp add: classify_Stale_iff)
    then have notin: "relativePath t f \<notin> set ?dis" "relativePath t f \<notin> set out"
      by (simp_all add: dis')
    from st notin(1) have "classify e t ?dis f = Inr Stale" by (simp add: classify_Stale_iff)
    with f have "relativePath t f \<in> set out"
      unfolding classificationPass_lists(2) [OF pass] by simp
    with notin(2) show False by contradiction
  qed
  then have "filter (\<lambda>f. classify e t ?dis' f = Inr Stale) (trackedFiles e t) = []"
    by (simp add: filter_empty_conv)
  with classificationPass_ok [OF stats, of l s'] show ?thesis by simp
qed

lemma dismissed_not_listed:
  assumes pass: "classificationPass e t l s = Inr ((m, out), s1)"
    and "existsSync e (summaryPath t file)" and "statSync e file = Some a"
    and "statSync e (summaryPath t file) = Some b" and "a > b"
    and "relativePath t file \<in> set (dismissedFor (dismissed s) l)"
  shows "classify e t (dismissedFor (dismissed s) l) file = Inr Dismissed
       \<and> relativePath t file \<notin> set out"
proof
  show "classify e t (dismissedFor (dismissed s) l) file = Inr Dismissed"
    using assms(2-6) by (rule classify_Dismissed)
  show "relativePath t file \<notin> set out"
  proof
    assume "relativePath t file \<in> set out"
    then obtain g where "classify e t (dismissedFor (dismissed s) l) g = Inr Stale"
      "relativePath t g = relativePath t file"
      unfolding classificationPass_lists(2) [OF pass] by (fastforce simp: image_iff)
    then have "relativePath t file \<notin> set (dismissedFor (dismissed s) l)"
      by (simp add: classify_Stale_iff)
    with assms(6) show False by contradiction
  qed
qed

lemma rerun_after_dismiss:
  assumes pass: "classificationPass e t l s = Inr ((m, out), s1)"
    and finding: "m \<noteq> [] \<or> out \<noteq> []"
    and "inquirer_prompt e l = DismissTheseAlerts" and w: "writeJSON_succeeds e"
  shows "\<exists>s'. validateSummaries e t l s = Inr s'
           \<and> (\<exists>m2 s2. classificationPass e t l s' = Inr ((m2, []), s2))
           \<and> (\<exists>m2 s2. classificationPass e t l (reload s') = Inr ((m2, []), s2))"
proof -
  let ?s2 = "console_log (report l m out @ [Prompt l]) s1"
  have v: "validateSummaries e t l s = applyAction e l m out DismissTheseAlerts ?s2"
    using validateSummaries_prompted [OF pass finding] assms(3) by simp
  from applyAction_Dismiss [OF w, of l m out ?s2] obtain s' where
    s': "applyAction e l m out DismissTheseAlerts ?s2 = Inr s'"
    "dismissed s' = recordDismissals l (m @ out) (dismissed ?s2)"
    "dismissedFile s' = dismissed s'"
    by blast
  have s1: "dismissed s1 = (dismissed s)(l \<mapsto> dismissedFor (dismissed s) l)"
    using classificationPass_state [OF pass] by (simp add: dismissed_prepare)
  have dis: "dismissedFor (dismissed s') l = spread_Set (dismissedFor (dismissed s) l @ m @ out)"
    by (simp add: s'(2) dismissedFor_recordDismissals s1)
  then have dis_reload:
    "dismissedFor (dismissed (reload s')) l = spread_Set (dismissedFor (dismissed s) l @ m @ out)"
    by (simp add: s'(3))
  from no_stale_after_dismissal [OF pass dis] no_stale_after_dismissal [OF pass dis_reload] v s'(1)
  show ?thesis by simp
qed


lemma recordDismissals_twice:
  "recordDismissals l ps (recordDismissals l ps d) = recordDismissals l ps d"
  by (simp add: recordDismissals_def spread_Set_absorb)

lemma classify_cong:
  assumes "existsSync e1 (summaryPath t f) = existsSync e2 (summaryPath t f)"
    and "statSync e1 f = statSync e2 f"
    and "statSync e1 (summaryPath t f) = statSync e2 (summaryPath t f)"
    and "set d1 = set d2"
  shows "classify e1 t d1 f = classify e2 t d2 f"
  unfolding classify_def assms by (rule refl)

lemma forEach_file_cong:
  "\<forall>f \<in> set files. classify e1 t d1 f = classify e2 t d2 f \<Longrightarrow>
   forEach_file e1 t d1 files (m, out) = forEach_file e2 t d2 files (m, out)"
proof (induction files arbitrary: m out)
  case Nil
  then show ?case by simp
next
  case (Cons f files)
  from Cons.prems have hd: "classify e1 t d1 f = classify e2 t d2 f"
    and tl: "\<forall>f \<in> set files. classify e1 t d1 f = classify e2 t d2 f"
    by simp_all
  show ?case
  proof (cases "classify e2 t d2 f")
    case (Inl err)
    then show ?thesis by (simp add: hd)
  next
    case (Inr c)
    then show ?thesis by (cases c) (simp_all add: hd Cons.IH [OF tl])
  qed
qed

lemma trackedFiles_cong:
  "git_ls_files e1 t = git_ls_files e2 t \<Longrightarrow> trackedFiles e1 t = trackedFiles e2 t"
  by (simp add: trackedFiles_def getGitTrackedFiles_def)

lemma classificationPass_unfold:
  "classificationPass e t l s =
     (case forEach_file e t (dismissedFor (dismissed s) l) (trackedFiles e t) ([], []) of
        Inl err \<Rightarrow> Inl (err, snd (prepare e t l s))
      | Inr found \<Rightarrow> Inr (found, snd (prepare e t l s)))"
  by (simp add: classificationPass_def prepare_eq split: sum.splits)

lemma map_sum_fst_case:
  "map_sum fst fst (case r of Inl err \<Rightarrow> Inl (err, s) | Inr found \<Rightarrow> Inr (found, s)) = r"
  by (cases r) simp_all

lemma classificationPass_result:
  "map_sum fst fst (classificationPass e t l s) =
     forEach_file e t (dismissedFor (dismissed s) l) (trackedFiles e t) ([], [])"
  by (simp only: classificationPass_unfold map_sum_fst_case)

lemma classificationPass_no_prompt:
  "classificationPass (e\<lparr>inquirer_prompt := p\<rparr>) t l s = classificationPass e t l s"
proof -
  have tr: "trackedFiles (e\<lparr>inquirer_prompt := p\<rparr>) t = trackedFiles e t"
    by (rule trackedFiles_cong) simp
  have pr: "snd (prepare (e\<lparr>inquirer_prompt := p\<rparr>) t l s) = snd (prepare e t l s)"
    by (simp add: prepare_eq getGitTrackedFiles_def)
  have "forEach_file (e\<lparr>inquirer_prompt := p\<rparr>) t (dismissedFor (dismissed s) l)
          (trackedFiles e t) ([], [])
        = forEach_file e t (dismissedFor (dismissed s) l) (trackedFiles e t) ([], [])"
    by (rule forEach_file_cong) (simp add: classify_cong [where ?e1.0 = "e\<lparr>inquirer_prompt := p\<rparr>" and ?e2.0 = e])
  then show ?thesis
    by (simp only: classificationPass_unfold tr pr)
qed

lemma classify_error_kind:
  "classify e t dis f = Inl err \<Longrightarrow> \<exists>p. err = MetadataError p"
  by (cases "statSync e f"; cases "statSync e (summaryPath t f)")
     (simp_all add: classify_def split: if_splits, blast+)

lemma forEach_file_error:
  "\<exists>f \<in> set files. \<exists>err. classify e t dis f = Inl err \<Longrightarrow>
   \<exists>p. forEach_file e t dis files (m, out) = Inl (MetadataError p)"
proof (induction files arbitrary: m out)
  case Nil
  then show ?case by simp
next
  case (Cons f files)
  show ?case
  proof (cases "classify e t dis f")
    case (Inl err)
    with classify_error_kind [OF Inl] show ?thesis by auto
  next
    case (Inr c)
    with Cons.prems have "\<exists>f \<in> set files. \<exists>err. classify e t dis f = Inl err" by auto
    from Cons.IH [OF this] Inr show ?thesis by (cases c) simp_all
  qed
qed

lemma classify_cases: "(\<exists>c. classify e t dis f = Inr c) \<or> (\<exists>err. classify e t dis f = Inl err)"
  by (cases "classify e t dis f") simp_all

lemma validateSummaries_stat_failure:
  assumes "\<not> statsSucceed e t"
  shows "\<exists>p. validateSummaries e t l s = Inl (MetadataError p, snd (prepare e t l s))"
proof -
  let ?dis = "dismissedFor (dismissed s) l"
  from assms obtain f where f: "f \<in> set (trackedFiles e t)"
    and bad: "\<not> (existsSync e (summaryPath t f) \<longrightarrow>
           statSync e f \<noteq> None \<and> statSync e (summaryPath t f) \<noteq> None)"
    unfolding statsSucceed_def by blast
  from bad have "\<not> (\<exists>c. classify e t ?dis f = Inr c)"
    unfolding classify_ok_iff .
  with f classify_cases [of e t ?dis f] have "\<exists>err. classify e t ?dis f = Inl err" by blast
  with f have "\<exists>f \<in> set (trackedFiles e t). \<exists>err. classify e t ?dis f = Inl err" by blast
  from forEach_file_error [OF this, of "[]" "[]"] obtain p where
    "forEach_file e t ?dis (trackedFiles e t) ([], []) = Inl (MetadataError p)" by blast
  then have "validateSummaries e t l s = Inl (MetadataError p, snd (prepare e t l s))"
    by (simp add: validateSummaries_def classificationPass_unfold)
  then show ?thesis by blast
qed

lemma validateSummaries_write_failure:
  assumes "classificationPass e t l s = Inr ((m, out), s1)" and "m \<noteq> [] \<or> out \<noteq> []"
    and "inquirer_prompt e l = DismissTheseAlerts" and "\<not> writeJSON_succeeds e"
  shows "\<exists>s'. validateSummaries e t l s = Inl (PersistenceError, s')"
  using validateSummaries_prompted [OF assms(1,2)] assms(3,4)
  by (simp add: applyAction_def Let_def)

lemma forOf_directories_append:
  "forOf_directories e before s = Inr s1 \<Longrightarrow>
   forOf_directories e (before @ rest) s = forOf_directories e rest s1"
proof (induction before arbitrary: s)
  case Nil
  then show ?case by simp
next
  case (Cons d before)
  obtain dirPath label where d: "d = (dirPath, label)" by (cases d)
  from Cons.prems obtain s' where s': "validateSummaries e dirPath label s = Inr s'"
    "forOf_directories e before s' = Inr s1"
    by (auto simp: d split: sum.splits)
  from Cons.IH [OF s'(2)] s'(1) show ?case by (simp add: d)
qed

lemma classificationPass_no_write:
  "classificationPass (e\<lparr>writeJSON_succeeds := w\<rparr>) t l s = classificationPass e t l s"
proof -
  have tr: "trackedFiles (e\<lparr>writeJSON_succeeds := w\<rparr>) t = trackedFiles e t"
    by (rule trackedFiles_cong) simp
  have pr: "snd (prepare (e\<lparr>writeJSON_succeeds := w\<rparr>) t l s) = snd (prepare e t l s)"
    by (simp add: prepare_eq getGitTrackedFiles_def)
  have "forEach_file (e\<lparr>writeJSON_succeeds := w\<rparr>) t (dismissedFor (dismissed s) l)
          (trackedFiles e t) ([], [])
        = forEach_file e t (dismissedFor (dismissed s) l) (trackedFiles e t) ([], [])"
    by (rule forEach_file_cong)
       (simp add: classify_cong [where ?e1.0 = "e\<lparr>writeJSON_succeeds := w\<rparr>" and ?e2.0 = e])
  then show ?thesis
    by (simp only: classificationPass_unfold tr pr)
qed

section \<open>The claims\<close>

subsection \<open>Facts about the small repository\<close>

lemma demo_tracked:
  "trackedFiles demo_env backend =
     [''/r/backend/a.txt'', ''/r/backend/b.txt'', ''/r/backend/c.txt'', ''/r/backend/d.txt'']"
  by code_simp

lemma demo_statsSucceed: "statsSucceed demo_env backend"
  unfolding statsSucceed_def demo_tracked by code_simp


lemma demo_pass:
  "classificationPass demo_env backend ''Backend'' demo_state =
     Inr (([''a.txt''], [''b.txt'']), snd (prepare demo_env backend ''Backend'' demo_state))"
proof -
  have "map (relativePath backend)
          (filter (\<lambda>f. classify demo_env backend (dismissedFor (dismissed demo_state) ''Backend'') f
                        = Inr Missing) (trackedFiles demo_env backend)) = [''a.txt'']"
    unfolding demo_tracked by code_simp
  moreover have "map (relativePath backend)
          (filter (\<lambda>f. classify demo_env backend (dismissedFor (dismissed demo_state) ''Backend'') f
                        = Inr Stale) (trackedFiles demo_env backend)) = [''b.txt'']"
    unfolding demo_tracked by code_simp
  ultimately show ?thesis
    using classificationPass_ok [OF demo_statsSucceed, of "''Backend''" demo_state] by simp
qed

lemma demo_pass_ignore:
  "classificationPass env_ignore backend ''Backend'' demo_state =
     Inr (([''a.txt''], [''b.txt'']), snd (prepare demo_env backend ''Backend'' demo_state))"
  unfolding env_ignore_def classificationPass_no_prompt by (rule demo_pass)

lemma demo_deleted_stats: "\<not> statsSucceed env_deleted backend"
proof
  assume ok: "statsSucceed env_deleted backend"
  have "trackedFiles env_deleted backend = trackedFiles demo_env backend"
    by (rule trackedFiles_cong) (simp add: env_deleted_def)
  then have "''/r/backend/b.txt'' \<in> set (trackedFiles env_deleted backend)"
    by (simp add: demo_tracked)
  with ok have "existsSync env_deleted (summaryPath backend ''/r/backend/b.txt'')
      \<longrightarrow> statSync env_deleted ''/r/backend/b.txt'' \<noteq> None"
    unfolding statsSucceed_def by blast
  moreover have "existsSync env_deleted (summaryPath backend ''/r/backend/b.txt'')"
    by code_simp
  moreover have "statSync env_deleted ''/r/backend/b.txt'' = None"
    by code_simp
  ultimately show False by simp
qed

lemma demo_pass_read_only:
  "classificationPass env_read_only backend ''Backend'' demo_state =
     Inr (([''a.txt''], [''b.txt'']), snd (prepare demo_env backend ''Backend'' demo_state))"
  unfolding env_read_only_def classificationPass_no_write by (rule demo_pass)

subsection \<open>Classification\<close>

text \<open>
  Claim C1. Take a pass in which no stat throws. A tracked file whose summary exists,
  whose modification time is strictly greater than the summary's, and whose relative path
  is not among the scope's dismissals is classified \<open>Stale\<close>; its relative path is in
  the list of outdated summaries the pass produces, and that list is printed.
\<close>

theorem C1_stale_is_reported:
  assumes "statsSucceed e targetDir"
    and "file \<in> set (trackedFiles e targetDir)"
    and "existsSync e (summaryPath targetDir file)"
    and "statSync e file = Some fileMtime"
    and "statSync e (summaryPath targetDir file) = Some summaryMtime"
    and "fileMtime > summaryMtime"
    and "relativePath targetDir file \<notin> set (dismissedFor (dismissed s) dirLabel)"
  shows "classify e targetDir (dismissedFor (dismissed s) dirLabel) file = Inr Stale
    \<and> (\<exists>missingSummaries outdatedSummaries s1.
          classificationPass e targetDir dirLabel s
            = Inr ((missingSummaries, outdatedSummaries), s1)
          \<and> relativePath targetDir file \<in> set outdatedSummaries
          \<and> OutdatedSummaries dirLabel outdatedSummaries
              \<in> set (console (outcome_state (validateSummaries e targetDir dirLabel s))))"
proof -
  let ?dis = "dismissedFor (dismissed s) dirLabel"
  let ?m = "map (relativePath targetDir)
              (filter (\<lambda>f. classify e targetDir ?dis f = Inr Missing) (trackedFiles e targetDir))"
  let ?o = "map (relativePath targetDir)
              (filter (\<lambda>f. classify e targetDir ?dis f = Inr Stale) (trackedFiles e targetDir))"
  have stale: "classify e targetDir ?dis file = Inr Stale"
    using assms(3-7) by (simp add: classify_Stale_iff)
  have pass: "classificationPass e targetDir dirLabel s
                = Inr ((?m, ?o), snd (prepare e targetDir dirLabel s))"
    by (rule classificationPass_ok [OF assms(1)])
  have mem: "relativePath targetDir file \<in> set ?o"
    using assms(2) stale by simp
  then have "?o \<noteq> []" by force
  with validateSummaries_reports [OF pass]
  have "OutdatedSummaries dirLabel ?o
          \<in> set (console (outcome_state (validateSummaries e targetDir dirLabel s)))"
    by (rule_tac conjunct2 [THEN mp])
  with stale pass mem show ?thesis by (intro conjI exI)
qed

theorem C1_stale_is_reported_witness:
  "classify demo_env backend (dismissedFor (dismissed demo_state) ''Backend'')
      ''/r/backend/b.txt'' = Inr Stale
   \<and> (\<exists>missingSummaries outdatedSummaries s1.
          classificationPass demo_env backend ''Backend'' demo_state
            = Inr ((missingSummaries, outdatedSummaries), s1)
          \<and> relativePath backend ''/r/backend/b.txt'' \<in> set outdatedSummaries
          \<and> OutdatedSummaries ''Backend'' outdatedSummaries
              \<in> set (console (outcome_state
                    (validateSummaries demo_env backend ''Backend'' demo_state))))"
proof (rule C1_stale_is_reported [where fileMtime = 10 and summaryMtime = 5])
  show "statsSucceed demo_env backend" by (rule demo_statsSucceed)
  show "''/r/backend/b.txt'' \<in> set (trackedFiles demo_env backend)"
    by (simp add: demo_tracked)
  show "existsSync demo_env (summaryPath backend ''/r/backend/b.txt'')" by code_simp
  show "statSync demo_env ''/r/backend/b.txt'' = Some 10" by code_simp
  show "statSync demo_env (summaryPath backend ''/r/backend/b.txt'') = Some 5" by code_simp
  show "(5::int) < 10" by simp
  show "relativePath backend ''/r/backend/b.txt''
          \<notin> set (dismissedFor (dismissed demo_state) ''Backend'')"
    by code_simp
qed

text \<open>
  Claim C2. Take a pass in which no stat throws. A tracked file whose summary exists and
  has exactly the modification time of the file is classified \<open>Current\<close>; its
  relative path is in neither of the two lists the pass produces.
\<close>

theorem C2_equal_times_current:
  assumes "statsSucceed e targetDir"
    and "file \<in> set (trackedFiles e targetDir)"
    and "existsSync e (summaryPath targetDir file)"
    and "statSync e file = Some mtime"
    and "statSync e (summaryPath targetDir file) = Some mtime"
  shows "classify e targetDir (dismissedFor (dismissed s) dirLabel) file = Inr Current
    \<and> (\<exists>missingSummaries outdatedSummaries s1.
          classificationPass e targetDir dirLabel s
            = Inr ((missingSummaries, outdatedSummaries), s1)
          \<and> relativePath targetDir file \<notin> set missingSummaries
          \<and> relativePath targetDir file \<notin> set outdatedSummaries)"
proof -
  let ?dis = "dismissedFor (dismissed s) dirLabel"
  let ?m = "map (relativePath targetDir)
              (filter (\<lambda>f. classify e targetDir ?dis f = Inr Missing) (trackedFiles e targetDir))"
  let ?o = "map (relativePath targetDir)
              (filter (\<lambda>f. classify e targetDir ?dis f = Inr Stale) (trackedFiles e targetDir))"
  have cur: "classify e targetDir ?dis file = Inr Current"
    using assms(3-5) by (rule classify_Current_eq)
  have pass: "classificationPass e targetDir dirLabel s
                = Inr ((?m, ?o), snd (prepare e targetDir dirLabel s))"
    by (rule classificationPass_ok [OF assms(1)])
  have "relativePath targetDir file \<notin> set ?m"
  proof
    assume "relativePath targetDir file \<in> set ?m"
    from in_filtered_paths [OF this assms(2) refl]
    show False using cur by simp
  qed
  moreover have "relativePath targetDir file \<notin> set ?o"
  proof
    assume "relativePath targetDir file \<in> set ?o"
    from in_filtered_paths [OF this assms(2) refl]
    show False using cur by simp
  qed
  ultimately show ?thesis using cur pass by (intro conjI exI)
qed

theorem C2_equal_times_current_witness:
  "classify demo_env backend (dismissedFor (dismissed demo_state) ''Backend'')
      ''/r/backend/c.txt'' = Inr Current
   \<and> (\<exists>missingSummaries outdatedSummaries s1.
          classificationPass demo_env backend ''Backend'' demo_state
            = Inr ((missingSummaries, outdatedSummaries), s1)
          \<and> relativePath backend ''/r/backend/c.txt'' \<notin> set missingSummaries
          \<and> relativePath backend ''/r/backend/c.txt'' \<notin> set outdatedSummaries)"
proof (rule C2_equal_times_current [where mtime = 7])
  show "statsSucceed demo_env backend" by (rule demo_statsSucceed)
  show "''/r/backend/c.txt'' \<in> set (trackedFiles demo_env backend)"
    by (simp add: demo_tracked)
  show "existsSync demo_env (summaryPath backend ''/r/backend/c.txt'')" by code_simp
  show "statSync demo_env ''/r/backend/c.txt'' = Some 7" by code_simp
  show "statSync demo_env (summaryPath backend ''/r/backend/c.txt'') = Some 7" by code_simp
qed

text \<open>
  Claim C4. Take a pass in which no stat throws. A tracked file without a summary is
  classified \<open>Missing\<close> whatever the dismissals are; its relative path is in the list
  of missing summaries the pass produces, and that list is printed.
\<close>

theorem C4_missing_despite_dismissal:
  assumes "statsSucceed e targetDir"
    and "file \<in> set (trackedFiles e targetDir)"
    and "\<not> existsSync e (summaryPath targetDir file)"
  shows "(\<forall>dis. classify e targetDir dis file = Inr Missing)
    \<and> (\<exists>missingSummaries outdatedSummaries s1.
          classificationPass e targetDir dirLabel s
            = Inr ((missingSummaries, outdatedSummaries), s1)
          \<and> relativePath targetDir file \<in> set missingSummaries
          \<and> MissingSummaries dirLabel missingSummaries
              \<in> set (console (outcome_state (validateSummaries e targetDir dirLabel s))))"
proof -
  let ?dis = "dismissedFor (dismissed s) dirLabel"
  let ?m = "map (relativePath targetDir)
              (filter (\<lambda>f. classify e targetDir ?dis f = Inr Missing) (trackedFiles e targetDir))"
  let ?o = "map (relativePath targetDir)
              (filter (\<lambda>f. classify e targetDir ?dis f = Inr Stale) (trackedFiles e targetDir))"
  have missing: "\<forall>dis. classify e targetDir dis file = Inr Missing"
    using assms(3) by (simp add: classify_Missing_iff)
  have pass: "classificationPass e targetDir dirLabel s
                = Inr ((?m, ?o), snd (prepare e targetDir dirLabel s))"
    by (rule classificationPass_ok [OF assms(1)])
  have mem: "relativePath targetDir file \<in> set ?m"
    using assms(2) missing by simp
  then have "?m \<noteq> []" by force
  then have "MissingSummaries dirLabel ?m
          \<in> set (console (outcome_state (validateSummaries e targetDir dirLabel s)))"
    by (rule validateSummaries_reports [OF pass, THEN conjunct1, THEN mp])
  with missing pass mem show ?thesis by (intro conjI exI)
qed

theorem C4_missing_despite_dismissal_witness:
  "relativePath backend ''/r/backend/a.txt'' \<in> set (dismissedFor (dismissed demo_state) ''Backend'')
   \<and> (\<forall>dis. classify demo_env backend dis ''/r/backend/a.txt'' = Inr Missing)
   \<and> (\<exists>missingSummaries outdatedSummaries s1.
          classificationPass demo_env backend ''Backend'' demo_state
            = Inr ((missingSummaries, outdatedSummaries), s1)
          \<and> relativePath backend ''/r/backend/a.txt'' \<in> set missingSummaries
          \<and> MissingSummaries ''Backend'' missingSummaries
              \<in> set (console (outcome_state
                    (validateSummaries demo_env backend ''Backend'' demo_state))))"
proof (rule conjI)
  show "relativePath backend ''/r/backend/a.txt''
          \<in> set (dismissedFor (dismissed demo_state) ''Backend'')"
    by code_simp
  show "(\<forall>dis. classify demo_env backend dis ''/r/backend/a.txt'' = Inr Missing)
   \<and> (\<exists>missingSummaries outdatedSummaries s1.
          classificationPass demo_env backend ''Backend'' demo_state
            = Inr ((missingSummaries, outdatedSummaries), s1)
          \<and> relativePath backend ''/r/backend/a.txt'' \<in> set missingSummaries
          \<and> MissingSummaries ''Backend'' missingSummaries
              \<in> set (console (outcome_state
                    (validateSummaries demo_env backend ''Backend'' demo_state))))"
  proof (rule C4_missing_despite_dismissal)
    show "statsSucceed demo_env backend" by (rule demo_statsSucceed)
    show "''/r/backend/a.txt'' \<in> set (trackedFiles demo_env backend)"
      by (simp add: demo_tracked)
    show "\<not> existsSync demo_env (summaryPath backend ''/r/backend/a.txt'')" by code_simp
  qed
qed

subsection \<open>Dismissals\<close>

text \<open>
  Claim C3. Take a pass that completes. A tracked file whose summary exists and is
  strictly older than the file, and whose relative path is among the scope's dismissals,
  is classified \<open>Dismissed\<close> and is not in the list of outdated summaries. If the pass
  found something, the user chooses to dismiss and the file of dismissals is written,
  then the next pass over the same files, in the same run or in a later one, produces an
  empty list of outdated summaries.
\<close>

theorem C3_dismissed_is_suppressed:
  assumes "classificationPass e targetDir dirLabel s
             = Inr ((missingSummaries, outdatedSummaries), s1)"
  shows "(\<forall>file \<in> set (trackedFiles e targetDir). \<forall>fileMtime summaryMtime.
            existsSync e (summaryPath targetDir file)
            \<and> statSync e file = Some fileMtime
            \<and> statSync e (summaryPath targetDir file) = Some summaryMtime
            \<and> fileMtime > summaryMtime
            \<and> relativePath targetDir file \<in> set (dismissedFor (dismissed s) dirLabel)
            \<longrightarrow> classify e targetDir (dismissedFor (dismissed s) dirLabel) file = Inr Dismissed
                \<and> relativePath targetDir file \<notin> set outdatedSummaries)
       \<and> ((missingSummaries \<noteq> [] \<or> outdatedSummaries \<noteq> [])
            \<longrightarrow> inquirer_prompt e dirLabel = DismissTheseAlerts
            \<longrightarrow> writeJSON_succeeds e
            \<longrightarrow> (\<exists>s'. validateSummaries e targetDir dirLabel s = Inr s'
                   \<and> (\<exists>missing2 s2.
                         classificationPass e targetDir dirLabel s' = Inr ((missing2, []), s2))
                   \<and> (\<exists>missing2 s2.
                         classificationPass e targetDir dirLabel (reload s')
                           = Inr ((missing2, []), s2))))"
proof (intro conjI ballI allI impI)
  fix f fileMtime summaryMtime
  assume "existsSync e (summaryPath targetDir f)
            \<and> statSync e f = Some fileMtime
            \<and> statSync e (summaryPath targetDir f) = Some summaryMtime
            \<and> fileMtime > summaryMtime
            \<and> relativePath targetDir f \<in> set (dismissedFor (dismissed s) dirLabel)"
  then have "classify e targetDir (dismissedFor (dismissed s) dirLabel) f = Inr Dismissed
       \<and> relativePath targetDir f \<notin> set outdatedSummaries"
    using dismissed_not_listed [OF assms, of f fileMtime summaryMtime] by blast
  then show "classify e targetDir (dismissedFor (dismissed s) dirLabel) f = Inr Dismissed"
    and "relativePath targetDir f \<notin> set outdatedSummaries"
    by simp_all
next
  assume "missingSummaries \<noteq> [] \<or> outdatedSummaries \<noteq> []"
    and "inquirer_prompt e dirLabel = DismissTheseAlerts" and "writeJSON_succeeds e"
  then show "\<exists>s'. validateSummaries e targetDir dirLabel s = Inr s'
                   \<and> (\<exists>missing2 s2.
                         classificationPass e targetDir dirLabel s' = Inr ((missing2, []), s2))
                   \<and> (\<exists>missing2 s2.
                         classificationPass e targetDir dirLabel (reload s')
                           = Inr ((missing2, []), s2))"
    by (rule rerun_after_dismiss [OF assms])
qed

theorem C3_dismissed_is_suppressed_witness:
  "classify demo_env backend (dismissedFor (dismissed demo_state) ''Backend'') ''/r/backend/d.txt''
     = Inr Dismissed
   \<and> relativePath backend ''/r/backend/d.txt'' \<notin> set [''b.txt'']
   \<and> (\<exists>s'. validateSummaries demo_env backend ''Backend'' demo_state = Inr s'
         \<and> (\<exists>missing2 s2.
               classificationPass demo_env backend ''Backend'' s' = Inr ((missing2, []), s2))
         \<and> (\<exists>missing2 s2.
               classificationPass demo_env backend ''Backend'' (reload s')
                 = Inr ((missing2, []), s2)))"
proof -
  note th = C3_dismissed_is_suppressed [OF demo_pass]
  have d: "''/r/backend/d.txt'' \<in> set (trackedFiles demo_env backend)"
    by (simp add: demo_tracked)
  have facts: "existsSync demo_env (summaryPath backend ''/r/backend/d.txt'')
      \<and> statSync demo_env ''/r/backend/d.txt'' = Some 10
      \<and> statSync demo_env (summaryPath backend ''/r/backend/d.txt'') = Some 5
      \<and> (10::int) > 5
      \<and> relativePath backend ''/r/backend/d.txt''
          \<in> set (dismissedFor (dismissed demo_state) ''Backend'')"
    by code_simp
  have found: "[''a.txt''] \<noteq> [] \<or> [''b.txt''] \<noteq> []" by simp
  have dismiss: "inquirer_prompt demo_env ''Backend'' = DismissTheseAlerts" by code_simp
  have w: "writeJSON_succeeds demo_env" by code_simp
  note p1 = th [THEN conjunct1, rule_format, OF d facts]
  note p2 = th [THEN conjunct2, rule_format, OF found dismiss w]
  show ?thesis
    by (rule conjI [OF p1 [THEN conjunct1] conjI [OF p1 [THEN conjunct2] p2]])
qed

text \<open>
  Claim C5. Dismissing the same paths a second time changes nothing: the mapping after
  two dismissals is the mapping after one, so the scope's array has the same elements
  and the same number of them; dismissing paths that are all dismissed
  already leaves the scope's set as it was; and applying the dismiss action again to the
  state it produced leaves the mapping and the written file as they are.
\<close>

theorem C5_dismissal_idempotent:
  "recordDismissals dirLabel paths (recordDismissals dirLabel paths d)
     = recordDismissals dirLabel paths d
   \<and> card (set (dismissedFor
         (recordDismissals dirLabel paths (recordDismissals dirLabel paths d)) dirLabel))
     = card (set (dismissedFor (recordDismissals dirLabel paths d) dirLabel))
   \<and> (set paths \<subseteq> set (dismissedFor d dirLabel)
        \<longrightarrow> set (dismissedFor (recordDismissals dirLabel paths d) dirLabel)
            = set (dismissedFor d dirLabel))
   \<and> (applyAction e dirLabel missingSummaries outdatedSummaries DismissTheseAlerts s = Inr s'
        \<longrightarrow> (\<exists>s''. applyAction e dirLabel missingSummaries outdatedSummaries
                      DismissTheseAlerts s' = Inr s''
                  \<and> dismissed s'' = dismissed s' \<and> dismissedFile s'' = dismissedFile s'))"
proof (intro conjI impI)
  show twice: "recordDismissals dirLabel paths (recordDismissals dirLabel paths d)
     = recordDismissals dirLabel paths d"
    by (rule recordDismissals_twice)
  show "card (set (dismissedFor
         (recordDismissals dirLabel paths (recordDismissals dirLabel paths d)) dirLabel))
     = card (set (dismissedFor (recordDismissals dirLabel paths d) dirLabel))"
    by (simp only: twice)
next
  assume "set paths \<subseteq> set (dismissedFor d dirLabel)"
  then show "set (dismissedFor (recordDismissals dirLabel paths d) dirLabel)
            = set (dismissedFor d dirLabel)"
    by (simp add: dismissedFor_recordDismissals Un_absorb2)
next
  let ?ps = "missingSummaries @ outdatedSummaries"
  assume first: "applyAction e dirLabel missingSummaries outdatedSummaries DismissTheseAlerts s
                   = Inr s'"
  then have w: "writeJSON_succeeds e"
    by (simp add: applyAction_def Let_def split: if_splits)
  from applyAction_Dismiss [OF w, of dirLabel missingSummaries outdatedSummaries s] first
  have s': "dismissed s' = recordDismissals dirLabel ?ps (dismissed s)"
    "dismissedFile s' = dismissed s'"
    by simp_all
  from applyAction_Dismiss [OF w, of dirLabel missingSummaries outdatedSummaries s']
  obtain s'' where s'':
    "applyAction e dirLabel missingSummaries outdatedSummaries DismissTheseAlerts s' = Inr s''"
    "dismissed s'' = recordDismissals dirLabel ?ps (dismissed s')"
    "dismissedFile s'' = dismissed s''"
    by blast
  have "dismissed s'' = dismissed s'"
    by (simp only: s''(2) s'(1) recordDismissals_twice)
  with s'' s'(2) show "\<exists>s''. applyAction e dirLabel missingSummaries outdatedSummaries
                      DismissTheseAlerts s' = Inr s''
                  \<and> dismissed s'' = dismissed s' \<and> dismissedFile s'' = dismissedFile s'"
    by simp
qed

theorem C5_dismissal_idempotent_witness:
  "set [''d.txt''] \<subseteq> set (dismissedFor (dismissed demo_state) ''Backend'')
   \<and> set (dismissedFor (recordDismissals ''Backend'' [''d.txt''] (dismissed demo_state)) ''Backend'')
       = set (dismissedFor (dismissed demo_state) ''Backend'')
   \<and> recordDismissals ''Backend'' [''d.txt'']
        (recordDismissals ''Backend'' [''d.txt''] (dismissed demo_state))
       = recordDismissals ''Backend'' [''d.txt''] (dismissed demo_state)
   \<and> (\<exists>s' s''. applyAction demo_env ''Backend'' [''a.txt''] [''b.txt''] DismissTheseAlerts demo_state
                 = Inr s'
          \<and> applyAction demo_env ''Backend'' [''a.txt''] [''b.txt''] DismissTheseAlerts s' = Inr s''
          \<and> dismissed s'' = dismissed s' \<and> dismissedFile s'' = dismissedFile s')"
proof -
  have sub: "set [''d.txt''] \<subseteq> set (dismissedFor (dismissed demo_state) ''Backend'')"
    by code_simp
  have w: "writeJSON_succeeds demo_env" by code_simp
  from applyAction_Dismiss [OF w, of "''Backend''" "[''a.txt'']" "[''b.txt'']" demo_state]
  obtain s' where
    s': "applyAction demo_env ''Backend'' [''a.txt''] [''b.txt''] DismissTheseAlerts demo_state
           = Inr s'"
    by blast
  note th = C5_dismissal_idempotent [of "''Backend''" "[''d.txt'']" "dismissed demo_state"
      demo_env "[''a.txt'']" "[''b.txt'']" demo_state s']
  from th [THEN conjunct2, THEN conjunct2, THEN conjunct2, rule_format, OF s']
  obtain s'' where
    "applyAction demo_env ''Backend'' [''a.txt''] [''b.txt''] DismissTheseAlerts s' = Inr s''"
    "dismissed s'' = dismissed s'" "dismissedFile s'' = dismissedFile s'"
    by blast
  with s' have "\<exists>s' s''.
      applyAction demo_env ''Backend'' [''a.txt''] [''b.txt''] DismissTheseAlerts demo_state = Inr s'
      \<and> applyAction demo_env ''Backend'' [''a.txt''] [''b.txt''] DismissTheseAlerts s' = Inr s''
      \<and> dismissed s'' = dismissed s' \<and> dismissedFile s'' = dismissedFile s'"
    by blast
  note again = this
  note same_set = th [THEN conjunct2, THEN conjunct2, THEN conjunct1, rule_format, OF sub]
  show ?thesis
    by (rule conjI [OF sub conjI [OF same_set conjI [OF th [THEN conjunct1] again]]])
qed

subsection \<open>Determinism of a pass\<close>

text \<open>
  Claim C10. The result of a pass, its two lists or the exception that ended it, is a
  function of the list of tracked files, of whether each tracked file's summary exists,
  of what stat gives for each tracked file and its summary, and of the set of the scope's
  dismissals: two passes that agree on these have the same result. The lists are the
  relative paths of the tracked files without a summary, and of the tracked files
  classified \<open>Stale\<close>, each in the order of the listing.
\<close>

theorem C10_pass_deterministic:
  assumes "git_ls_files e1 targetDir = git_ls_files e2 targetDir"
    and "\<forall>file \<in> set (trackedFiles e1 targetDir).
           existsSync e1 (summaryPath targetDir file) = existsSync e2 (summaryPath targetDir file)
           \<and> statSync e1 file = statSync e2 file
           \<and> statSync e1 (summaryPath targetDir file) = statSync e2 (summaryPath targetDir file)"
    and "set (dismissedFor (dismissed s1) dirLabel) = set (dismissedFor (dismissed s2) dirLabel)"
  shows "map_sum fst fst (classificationPass e1 targetDir dirLabel s1)
           = map_sum fst fst (classificationPass e2 targetDir dirLabel s2)
       \<and> (\<forall>missingSummaries outdatedSummaries s'.
             classificationPass e1 targetDir dirLabel s1
               = Inr ((missingSummaries, outdatedSummaries), s')
             \<longrightarrow> missingSummaries
                   = map (relativePath targetDir)
                       (filter (\<lambda>file. \<not> existsSync e1 (summaryPath targetDir file))
                          (trackedFiles e1 targetDir))
               \<and> outdatedSummaries
                   = map (relativePath targetDir)
                       (filter (\<lambda>file. classify e1 targetDir
                                  (dismissedFor (dismissed s1) dirLabel) file = Inr Stale)
                          (trackedFiles e1 targetDir)))"
proof (intro conjI allI impI)
  have same: "\<forall>f \<in> set (trackedFiles e1 targetDir).
      classify e1 targetDir (dismissedFor (dismissed s1) dirLabel) f
        = classify e2 targetDir (dismissedFor (dismissed s2) dirLabel) f"
  proof
    fix f
    assume "f \<in> set (trackedFiles e1 targetDir)"
    with assms(2) have
      "existsSync e1 (summaryPath targetDir f) = existsSync e2 (summaryPath targetDir f)"
      "statSync e1 f = statSync e2 f"
      "statSync e1 (summaryPath targetDir f) = statSync e2 (summaryPath targetDir f)"
      by simp_all
    then show "classify e1 targetDir (dismissedFor (dismissed s1) dirLabel) f
        = classify e2 targetDir (dismissedFor (dismissed s2) dirLabel) f"
      using assms(3) by (rule classify_cong)
  qed
  show "map_sum fst fst (classificationPass e1 targetDir dirLabel s1)
           = map_sum fst fst (classificationPass e2 targetDir dirLabel s2)"
    unfolding classificationPass_result trackedFiles_cong [OF assms(1), symmetric]
    by (rule forEach_file_cong [OF same])
next
  fix missingSummaries outdatedSummaries s'
  assume pass: "classificationPass e1 targetDir dirLabel s1
               = Inr ((missingSummaries, outdatedSummaries), s')"
  show "missingSummaries
          = map (relativePath targetDir)
              (filter (\<lambda>file. \<not> existsSync e1 (summaryPath targetDir file))
                 (trackedFiles e1 targetDir))"
    using classificationPass_lists(1) [OF pass] by (simp only: classify_Missing_iff)
  show "outdatedSummaries
          = map (relativePath targetDir)
              (filter (\<lambda>file. classify e1 targetDir
                         (dismissedFor (dismissed s1) dirLabel) file = Inr Stale)
                 (trackedFiles e1 targetDir))"
    by (rule classificationPass_lists(2) [OF pass])
qed


theorem C10_pass_deterministic_witness:
  "map_sum fst fst (classificationPass demo_env backend ''Backend'' demo_state)
     = map_sum fst fst (classificationPass env_read_only backend ''Backend'' demo_state2)
   \<and> dismissedFor (dismissed demo_state) ''Backend''
       \<noteq> dismissedFor (dismissed demo_state2) ''Backend''"
proof
  have git: "git_ls_files demo_env backend = git_ls_files env_read_only backend"
    by code_simp
  have fs: "\<forall>file \<in> set (trackedFiles demo_env backend).
           existsSync demo_env (summaryPath backend file)
             = existsSync env_read_only (summaryPath backend file)
           \<and> statSync demo_env file = statSync env_read_only file
           \<and> statSync demo_env (summaryPath backend file)
             = statSync env_read_only (summaryPath backend file)"
    by (simp add: env_read_only_def)
  have dis: "set (dismissedFor (dismissed demo_state) ''Backend'')
               = set (dismissedFor (dismissed demo_state2) ''Backend'')"
    by (simp add: demo_state_def demo_state2_def dismissedFor_def insert_commute)
  from C10_pass_deterministic [OF git fs dis, THEN conjunct1]
  show "map_sum fst fst (classificationPass demo_env backend ''Backend'' demo_state)
     = map_sum fst fst (classificationPass env_read_only backend ''Backend'' demo_state2)" .
  show "dismissedFor (dismissed demo_state) ''Backend''
       \<noteq> dismissedFor (dismissed demo_state2) ''Backend''"
    by code_simp
qed

subsection \<open>The decision\<close>

text \<open>
  Claim C6. Take a pass that completes and finds something, so that the user is asked.
  If the answer is to dismiss and the file of dismissals can be written, the pass returns
  with the scope's set of dismissals equal to what it was, joined with the paths of the
  list of missing and of the list of outdated summaries; the other scopes' entries are
  untouched, and the file holds exactly this mapping. With any other answer the pass
  returns with the mapping and the file as they were when the user was asked, and every
  scope's array of dismissals as it was when the pass began.
\<close>

theorem C6_effect_of_the_decision:
  assumes "classificationPass e targetDir dirLabel s
             = Inr ((missingSummaries, outdatedSummaries), s1)"
    and "missingSummaries \<noteq> [] \<or> outdatedSummaries \<noteq> []"
  shows "(inquirer_prompt e dirLabel = DismissTheseAlerts \<longrightarrow> writeJSON_succeeds e \<longrightarrow>
           (\<exists>s'. validateSummaries e targetDir dirLabel s = Inr s'
              \<and> set (dismissedFor (dismissed s') dirLabel)
                  = set (dismissedFor (dismissed s) dirLabel)
                    \<union> set missingSummaries \<union> set outdatedSummaries
              \<and> (\<forall>other. other \<noteq> dirLabel \<longrightarrow> dismissed s' other = dismissed s other)
              \<and> dismissedFile s' = dismissed s'))
       \<and> (inquirer_prompt e dirLabel \<noteq> DismissTheseAlerts \<longrightarrow>
           (\<exists>s'. validateSummaries e targetDir dirLabel s = Inr s'
              \<and> dismissed s' = dismissed s1
              \<and> dismissedFile s' = dismissedFile s1
              \<and> dismissedFile s' = dismissedFile s
              \<and> (\<forall>label. dismissedFor (dismissed s') label = dismissedFor (dismissed s) label)))"
proof (intro conjI impI)
  let ?s2 = "console_log (report dirLabel missingSummaries outdatedSummaries @ [Prompt dirLabel]) s1"
  note v = validateSummaries_prompted [OF assms]
  have s1: "dismissed s1 = (dismissed s)(dirLabel \<mapsto> dismissedFor (dismissed s) dirLabel)"
    "dismissedFile s1 = dismissedFile s"
    using classificationPass_state [OF assms(1)]
    by (simp_all add: dismissed_prepare dismissedFile_prepare)
  {
    assume ans: "inquirer_prompt e dirLabel = DismissTheseAlerts" and w: "writeJSON_succeeds e"
    from applyAction_Dismiss [OF w, of dirLabel missingSummaries outdatedSummaries ?s2]
    obtain s' where s':
      "applyAction e dirLabel missingSummaries outdatedSummaries DismissTheseAlerts ?s2 = Inr s'"
      "dismissed s' = recordDismissals dirLabel (missingSummaries @ outdatedSummaries) (dismissed ?s2)"
      "dismissedFile s' = dismissed s'"
      by blast
    have "validateSummaries e targetDir dirLabel s = Inr s'"
      by (simp only: v ans s'(1))
    moreover have "set (dismissedFor (dismissed s') dirLabel)
                  = set (dismissedFor (dismissed s) dirLabel)
                    \<union> set missingSummaries \<union> set outdatedSummaries"
      by (simp add: s'(2) dismissedFor_recordDismissals s1 Un_assoc)
    moreover have "\<forall>other. other \<noteq> dirLabel \<longrightarrow> dismissed s' other = dismissed s other"
      by (simp add: s'(2) recordDismissals_def s1)
    ultimately show "\<exists>s'. validateSummaries e targetDir dirLabel s = Inr s'
              \<and> set (dismissedFor (dismissed s') dirLabel)
                  = set (dismissedFor (dismissed s) dirLabel)
                    \<union> set missingSummaries \<union> set outdatedSummaries
              \<and> (\<forall>other. other \<noteq> dirLabel \<longrightarrow> dismissed s' other = dismissed s other)
              \<and> dismissedFile s' = dismissed s'"
      using s'(3) by blast
  }
  {
    assume ans: "inquirer_prompt e dirLabel \<noteq> DismissTheseAlerts"
    from applyAction_other [OF ans, of e dirLabel missingSummaries outdatedSummaries ?s2]
    obtain s' where s':
      "applyAction e dirLabel missingSummaries outdatedSummaries (inquirer_prompt e dirLabel) ?s2
         = Inr s'"
      "dismissed s' = dismissed ?s2" "dismissedFile s' = dismissedFile ?s2"
      by blast
    have "validateSummaries e targetDir dirLabel s = Inr s'"
      by (simp only: v s'(1))
    moreover have "dismissed s' = dismissed s1" "dismissedFile s' = dismissedFile s1"
      "dismissedFile s' = dismissedFile s"
      by (simp_all add: s'(2,3) s1(2))
    moreover have "\<forall>label. dismissedFor (dismissed s') label = dismissedFor (dismissed s) label"
      by (simp add: s'(2) s1(1))
    ultimately show "\<exists>s'. validateSummaries e targetDir dirLabel s = Inr s'
              \<and> dismissed s' = dismissed s1
              \<and> dismissedFile s' = dismissedFile s1
              \<and> dismissedFile s' = dismissedFile s
              \<and> (\<forall>label. dismissedFor (dismissed s') label = dismissedFor (dismissed s) label)"
      by blast
  }
qed

theorem C6_effect_of_the_decision_witness:
  "(\<exists>s'. validateSummaries demo_env backend ''Backend'' demo_state = Inr s'
       \<and> set (dismissedFor (dismissed s') ''Backend'') = {''d.txt'', ''a.txt'', ''b.txt''}
       \<and> dismissedFile s' = dismissed s')
   \<and> (\<exists>s'. validateSummaries env_ignore backend ''Backend'' demo_state = Inr s'
       \<and> dismissedFile s' = dismissedFile demo_state
       \<and> dismissedFor (dismissed s') ''Backend'' = [''d.txt'', ''a.txt''])"
proof
  have found: "[''a.txt''] \<noteq> [] \<or> [''b.txt''] \<noteq> []" by simp
  have dismiss: "inquirer_prompt demo_env ''Backend'' = DismissTheseAlerts" by code_simp
  have w: "writeJSON_succeeds demo_env" by code_simp
  have before: "dismissedFor (dismissed demo_state) ''Backend'' = [''d.txt'', ''a.txt'']"
    by code_simp
  from C6_effect_of_the_decision [OF demo_pass found, THEN conjunct1, rule_format, OF dismiss w]
  obtain s' where "validateSummaries demo_env backend ''Backend'' demo_state = Inr s'"
    "set (dismissedFor (dismissed s') ''Backend'')
       = set (dismissedFor (dismissed demo_state) ''Backend'') \<union> set [''a.txt''] \<union> set [''b.txt'']"
    "dismissedFile s' = dismissed s'"
    by blast
  then show "\<exists>s'. validateSummaries demo_env backend ''Backend'' demo_state = Inr s'
       \<and> set (dismissedFor (dismissed s') ''Backend'') = {''d.txt'', ''a.txt'', ''b.txt''}
       \<and> dismissedFile s' = dismissed s'"
    by (auto simp: before)
  have ignore: "inquirer_prompt env_ignore ''Backend'' \<noteq> DismissTheseAlerts" by code_simp
  from C6_effect_of_the_decision [OF demo_pass_ignore found, THEN conjunct2, rule_format, OF ignore]
  obtain s' where "validateSummaries env_ignore backend ''Backend'' demo_state = Inr s'"
    "dismissedFile s' = dismissedFile demo_state"
    "\<forall>label. dismissedFor (dismissed s') label = dismissedFor (dismissed demo_state) label"
    by blast
  then show "\<exists>s'. validateSummaries env_ignore backend ''Backend'' demo_state = Inr s'
       \<and> dismissedFile s' = dismissedFile demo_state
       \<and> dismissedFor (dismissed s') ''Backend'' = [''d.txt'', ''a.txt'']"
    by (auto simp: before)
qed

subsection \<open>Failures\<close>

text \<open>
  Claim C7, as the code has it. When \<^verbatim>\<open>git ls-files\<close> cannot run for a scope, the
  listing does not fail: the error is printed and the list of tracked files is empty. The
  scope's pass then completes like a pass over a scope without files: both lists are
  empty, the pass prints that all summaries are up to date, asks nothing and writes
  nothing, and the run goes on with the remaining scopes.
\<close>

theorem C7_listing_failure_is_swallowed:
  assumes "git_ls_files e targetDir = None"
  shows "getGitTrackedFiles e targetDir = ([], [ErrorFetching targetDir])
    \<and> (\<exists>s1. classificationPass e targetDir dirLabel s = Inr (([], []), s1))
    \<and> (\<exists>s'. validateSummaries e targetDir dirLabel s = Inr s'
          \<and> console s' = console s @ [ErrorFetching targetDir, AllUpToDate dirLabel]
          \<and> dismissedFile s' = dismissedFile s
          \<and> (\<forall>label. dismissedFor (dismissed s') label = dismissedFor (dismissed s) label)
          \<and> forOf_directories e ((targetDir, dirLabel) # directories) s
              = forOf_directories e directories s')"
proof (intro conjI)
  show g: "getGitTrackedFiles e targetDir = ([], [ErrorFetching targetDir])"
    using assms by (simp add: getGitTrackedFiles_def)
  then have tr: "trackedFiles e targetDir = []" by (simp add: trackedFiles_def)
  let ?s1 = "snd (prepare e targetDir dirLabel s)"
  have pass: "classificationPass e targetDir dirLabel s = Inr (([], []), ?s1)"
    by (simp add: classificationPass_unfold tr)
  then show "\<exists>s1. classificationPass e targetDir dirLabel s = Inr (([], []), s1)" by blast
  let ?s' = "console_log [AllUpToDate dirLabel] ?s1"
  have v: "validateSummaries e targetDir dirLabel s = Inr ?s'"
    by (simp add: validateSummaries_def pass)
  moreover have "console ?s' = console s @ [ErrorFetching targetDir, AllUpToDate dirLabel]"
    by (simp add: prepare_eq console_log_def g)
  moreover have "dismissedFile ?s' = dismissedFile s"
    by (simp add: dismissedFile_prepare)
  moreover have "\<forall>label. dismissedFor (dismissed ?s') label = dismissedFor (dismissed s) label"
    by (simp add: dismissed_prepare)
  moreover have "forOf_directories e ((targetDir, dirLabel) # directories) s
              = forOf_directories e directories ?s'"
    by (simp add: v)
  ultimately show "\<exists>s'. validateSummaries e targetDir dirLabel s = Inr s'
          \<and> console s' = console s @ [ErrorFetching targetDir, AllUpToDate dirLabel]
          \<and> dismissedFile s' = dismissedFile s
          \<and> (\<forall>label. dismissedFor (dismissed s') label = dismissedFor (dismissed s) label)
          \<and> forOf_directories e ((targetDir, dirLabel) # directories) s
              = forOf_directories e directories s'"
    by blast
qed

theorem C7_listing_failure_is_swallowed_witness:
  "getGitTrackedFiles env_no_git backend = ([], [ErrorFetching backend])
    \<and> (\<exists>s1. classificationPass env_no_git backend ''Backend'' demo_state = Inr (([], []), s1))
    \<and> (\<exists>s'. validateSummaries env_no_git backend ''Backend'' demo_state = Inr s'
          \<and> console s' = console demo_state @ [ErrorFetching backend, AllUpToDate ''Backend'']
          \<and> dismissedFile s' = dismissedFile demo_state
          \<and> (\<forall>label. dismissedFor (dismissed s') label
                       = dismissedFor (dismissed demo_state) label)
          \<and> forOf_directories env_no_git [(backend, ''Backend''), (frontend, ''Frontend'')]
                demo_state
              = forOf_directories env_no_git [(frontend, ''Frontend'')] s')"
proof (rule C7_listing_failure_is_swallowed)
  show "git_ls_files env_no_git backend = None" by code_simp
qed

text \<open>
  Against claim C7 as stated: in the small repository without git the listing of the
  backend returns normally, the backend's pass returns normally instead of being aborted,
  and what it prints is the error followed by the report that all summaries are up to
  date.
\<close>

theorem C7_counterexample:
  "git_ls_files env_no_git backend = None
   \<and> fst (getGitTrackedFiles env_no_git backend) = []
   \<and> (\<exists>s'. validateSummaries env_no_git backend ''Backend'' demo_state = Inr s')
   \<and> console (outcome_state (validateSummaries env_no_git backend ''Backend'' demo_state))
       = [ErrorFetching ''/r/backend'', AllUpToDate ''Backend'']"
proof -
  have g: "git_ls_files env_no_git backend = None"
    by (simp add: env_no_git_def)
  then have tr: "trackedFiles env_no_git backend = []"
    by (simp add: trackedFiles_def getGitTrackedFiles_def)
  have v: "validateSummaries env_no_git backend ''Backend'' demo_state
             = Inr (console_log [AllUpToDate ''Backend'']
                      (snd (prepare env_no_git backend ''Backend'' demo_state)))"
    by (simp add: validateSummaries_def classificationPass_unfold tr)
  have b: "ErrorFetching backend = ErrorFetching ''/r/backend''"
    by (simp add: backend_def)
  have "console (console_log [AllUpToDate ''Backend'']
                   (snd (prepare env_no_git backend ''Backend'' demo_state)))
          = [ErrorFetching ''/r/backend'', AllUpToDate ''Backend'']"
    by (simp add: console_log_def prepare_eq getGitTrackedFiles_def g demo_state_def b)
  with g tr show ?thesis
    by (simp add: v outcome_state_def trackedFiles_def)
qed


text \<open>
  Claim C8, as the code has it. An exception thrown in a scope's pass is not caught for
  that scope: it ends the loop over the selected scopes, the entry point prints it and
  the process exits with status 1, whatever scopes remain. A stat that throws does this
  with a \<open>MetadataError\<close>, and so does, with a \<open>PersistenceError\<close>, a dismissal
  whose file cannot be written.
\<close>

theorem C8_scope_error_aborts_run:
  assumes "forOf_directories e before s = Inr s1"
  shows "(validateSummaries e dirPath label s1 = Inl (err, s2) \<longrightarrow>
            entryPoint e (before @ (dirPath, label) # remaining) s
              = (1, console_log [AnErrorOccurred err] s2))
       \<and> (\<not> statsSucceed e dirPath \<longrightarrow>
            (\<exists>p s2. validateSummaries e dirPath label s1 = Inl (MetadataError p, s2)
               \<and> entryPoint e (before @ (dirPath, label) # remaining) s
                   = (1, console_log [AnErrorOccurred (MetadataError p)] s2)))
       \<and> (classificationPass e dirPath label s1 = Inr ((missingSummaries, outdatedSummaries), s1')
            \<longrightarrow> missingSummaries \<noteq> [] \<or> outdatedSummaries \<noteq> []
            \<longrightarrow> inquirer_prompt e label = DismissTheseAlerts
            \<longrightarrow> \<not> writeJSON_succeeds e
            \<longrightarrow> (\<exists>s2. validateSummaries e dirPath label s1 = Inl (PersistenceError, s2)
                   \<and> entryPoint e (before @ (dirPath, label) # remaining) s
                       = (1, console_log [AnErrorOccurred PersistenceError] s2)))"
proof -
  have abort: "entryPoint e (before @ (dirPath, label) # remaining) s
                 = (1, console_log [AnErrorOccurred x] s')"
    if "validateSummaries e dirPath label s1 = Inl (x, s')" for x s'
    using that by (simp add: entryPoint_def forOf_directories_append [OF assms])
  show ?thesis
  proof (intro conjI impI)
    assume "validateSummaries e dirPath label s1 = Inl (err, s2)"
    then show "entryPoint e (before @ (dirPath, label) # remaining) s
              = (1, console_log [AnErrorOccurred err] s2)"
      by (rule abort)
  next
    assume "\<not> statsSucceed e dirPath"
    from validateSummaries_stat_failure [OF this, of label s1] obtain p where
      p: "validateSummaries e dirPath label s1
            = Inl (MetadataError p, snd (prepare e dirPath label s1))"
      by blast
    from p abort [OF p]
    show "\<exists>p s2. validateSummaries e dirPath label s1 = Inl (MetadataError p, s2)
               \<and> entryPoint e (before @ (dirPath, label) # remaining) s
                   = (1, console_log [AnErrorOccurred (MetadataError p)] s2)"
      by blast
  next
    assume "classificationPass e dirPath label s1
              = Inr ((missingSummaries, outdatedSummaries), s1')"
      and "missingSummaries \<noteq> [] \<or> outdatedSummaries \<noteq> []"
      and "inquirer_prompt e label = DismissTheseAlerts"
      and "\<not> writeJSON_succeeds e"
    from validateSummaries_write_failure [OF this] obtain s2 where
      s2: "validateSummaries e dirPath label s1 = Inl (PersistenceError, s2)"
      by blast
    from s2 abort [OF s2]
    show "\<exists>s2. validateSummaries e dirPath label s1 = Inl (PersistenceError, s2)
                   \<and> entryPoint e (before @ (dirPath, label) # remaining) s
                       = (1, console_log [AnErrorOccurred PersistenceError] s2)"
      by blast
  qed
qed

theorem C8_scope_error_aborts_run_witness:
  "(\<exists>p s2. validateSummaries env_deleted backend ''Backend'' demo_state
              = Inl (MetadataError p, s2)
         \<and> entryPoint env_deleted [(backend, ''Backend''), (frontend, ''Frontend'')] demo_state
             = (1, console_log [AnErrorOccurred (MetadataError p)] s2))
   \<and> (\<exists>s2. validateSummaries env_read_only backend ''Backend'' demo_state
              = Inl (PersistenceError, s2)
         \<and> entryPoint env_read_only [(backend, ''Backend''), (frontend, ''Frontend'')] demo_state
             = (1, console_log [AnErrorOccurred PersistenceError] s2))"
proof
  have start: "forOf_directories env_deleted [] demo_state = Inr demo_state" by simp
  from C8_scope_error_aborts_run [OF start, THEN conjunct2, THEN conjunct1, rule_format,
      OF demo_deleted_stats, of "''Backend''" "[(frontend, ''Frontend'')]"]
  show "\<exists>p s2. validateSummaries env_deleted backend ''Backend'' demo_state
              = Inl (MetadataError p, s2)
         \<and> entryPoint env_deleted [(backend, ''Backend''), (frontend, ''Frontend'')] demo_state
             = (1, console_log [AnErrorOccurred (MetadataError p)] s2)"
    by simp
  have start: "forOf_directories env_read_only [] demo_state = Inr demo_state" by simp
  have found: "[''a.txt''] \<noteq> [] \<or> [''b.txt''] \<noteq> []" by simp
  have dismiss: "inquirer_prompt env_read_only ''Backend'' = DismissTheseAlerts" by code_simp
  have w: "\<not> writeJSON_succeeds env_read_only" by code_simp
  from C8_scope_error_aborts_run [OF start, THEN conjunct2, THEN conjunct2, rule_format,
      OF demo_pass_read_only found dismiss w, of "[(frontend, ''Frontend'')]"]
  show "\<exists>s2. validateSummaries env_read_only backend ''Backend'' demo_state
              = Inl (PersistenceError, s2)
         \<and> entryPoint env_read_only [(backend, ''Backend''), (frontend, ''Frontend'')] demo_state
             = (1, console_log [AnErrorOccurred PersistenceError] s2)"
    by simp
qed

text \<open>
  Against claim C8 as stated: in the small repository with \<^verbatim>\<open>b.txt\<close> deleted, a run
  over the backend and the frontend exits with status 1 after the backend's stat failure
  and prints only the error; in the repository whose file of dismissals cannot be
  written, a run over both exits with status 1 after the backend's prompt. In both the
  frontend is never audited, although on its own it is audited and found to miss a
  summary.
\<close>

theorem C8_counterexample:
  "fst (entryPoint env_deleted [(backend, ''Backend''), (frontend, ''Frontend'')] demo_state) = 1
   \<and> console (snd (entryPoint env_deleted [(backend, ''Backend''), (frontend, ''Frontend'')]
                     demo_state))
       = [AnErrorOccurred (MetadataError ''/r/backend/b.txt'')]
   \<and> fst (entryPoint env_read_only [(backend, ''Backend''), (frontend, ''Frontend'')] demo_state)
       = 1
   \<and> console (snd (entryPoint env_read_only [(backend, ''Backend''), (frontend, ''Frontend'')]
                     demo_state))
       = [MissingSummaries ''Backend'' [''a.txt''], OutdatedSummaries ''Backend'' [''b.txt''],
          Prompt ''Backend'', AnErrorOccurred PersistenceError]
   \<and> fst (entryPoint env_deleted [(frontend, ''Frontend'')] demo_state) = 0
   \<and> console (snd (entryPoint env_deleted [(frontend, ''Frontend'')] demo_state))
       = [MissingSummaries ''Frontend'' [''x.js''], Prompt ''Frontend'',
          AlertsDismissed ''Frontend'']"
  by code_simp

subsection \<open>The filter of the listing\<close>

text \<open>
  Claim C9. A line of git's output is kept exactly when it is not empty, the string
  \<^verbatim>\<open>node_modules\<close> does not occur anywhere in it, and it does not begin with
  \<^verbatim>\<open>summary/\<close>. So a tracked file named \<^verbatim>\<open>my_node_modules_notes.txt\<close> is left
  out, and so are the empty line and a file below the top-level summary directory, while
  a file below a summary directory further down the tree is kept. The tracked files of a
  scope are the kept lines, in git's order, joined to the scope's root.
\<close>

theorem C9_listing_filter:
  "(keepFile file \<longleftrightarrow>
      file \<noteq> [] \<and> \<not> (\<exists>before after. file = before @ ''node_modules'' @ after)
      \<and> \<not> prefix ''summary/'' file)
   \<and> \<not> keepFile ''my_node_modules_notes.txt''
   \<and> \<not> keepFile ''''
   \<and> \<not> keepFile ''summary/a.js.summary.txt''
   \<and> keepFile ''docs/summary/notes.txt''
   \<and> (git_ls_files e targetDir = Some out \<longrightarrow>
        trackedFiles e targetDir
          = map (path_join targetDir) (filter keepFile (split_str (CHR 0x0A) out)))"
proof (intro conjI impI)
  show "keepFile file \<longleftrightarrow>
      file \<noteq> [] \<and> \<not> (\<exists>before after. file = before @ ''node_modules'' @ after)
      \<and> \<not> prefix ''summary/'' file"
    by (simp add: keepFile_def includes_iff startsWith_def summarySubDir_def)
  show "\<not> keepFile ''my_node_modules_notes.txt''" by code_simp
  show "\<not> keepFile ''''" by code_simp
  show "\<not> keepFile ''summary/a.js.summary.txt''" by code_simp
  show "keepFile ''docs/summary/notes.txt''" by code_simp
next
  assume "git_ls_files e targetDir = Some out"
  then show "trackedFiles e targetDir
          = map (path_join targetDir) (filter keepFile (split_str (CHR 0x0A) out))"
    by (simp add: trackedFiles_def getGitTrackedFiles_def)
qed

theorem C9_listing_filter_witness:
  "trackedFiles env_listing ''/r'' = [''/r/docs/summary/notes.txt'', ''/r/src/a.js'']
   \<and> (keepFile ''src/a.js'' \<longleftrightarrow>
        ''src/a.js'' \<noteq> [] \<and> \<not> (\<exists>before after. ''src/a.js'' = before @ ''node_modules'' @ after)
        \<and> \<not> prefix ''summary/'' ''src/a.js'')"
proof
  let ?out = "''my_node_modules_notes.txt'' @ [CHR 0x0A] @ ''summary/a.js.summary.txt''
      @ [CHR 0x0A] @ ''docs/summary/notes.txt'' @ [CHR 0x0A] @ [CHR 0x0A] @ ''src/a.js''
      @ [CHR 0x0A]"
  note th = C9_listing_filter [of "''src/a.js''" env_listing "''/r''" ?out]
  have git: "git_ls_files env_listing ''/r'' = Some ?out"
    by (simp add: env_listing_def)
  have "map (path_join ''/r'') (filter keepFile (split_str (CHR 0x0A) ?out))
          = [''/r/docs/summary/notes.txt'', ''/r/src/a.js'']"
    by code_simp
  with th [THEN conjunct2, THEN conjunct2, THEN conjunct2, THEN conjunct2, THEN conjunct2,
      rule_format, OF git]
  show "trackedFiles env_listing ''/r'' = [''/r/docs/summary/notes.txt'', ''/r/src/a.js'']"
    by (simp only:)
  show "keepFile ''src/a.js'' \<longleftrightarrow>
        ''src/a.js'' \<noteq> [] \<and> \<not> (\<exists>before after. ''src/a.js'' = before @ ''node_modules'' @ after)
        \<and> \<not> prefix ''summary/'' ''src/a.js''"
    by (rule th [THEN conjunct1])
qed

end
